theory Spec2Isabelle
  imports Main "HOL-Library.Word" "HOL-Library.Multiset"
begin

section \<open>The to-do list application (app.py)\<close>

text \<open>
  The program is a Flask application with four JSON routes over one SQLite table,
  \<^verbatim>\<open>tasks (id INTEGER PRIMARY KEY AUTOINCREMENT, description TEXT NOT NULL,
  completed BOOLEAN DEFAULT FALSE, created_at TIMESTAMP DEFAULT CURRENT_TIMESTAMP)\<close>.
  Each handler is modelled as a function from the database before the request to the
  database after it and the response. An exception that no handler catches is a value
  \<open>Inl e\<close>: Flask answers such a request with status 500.

  What the model covers of the libraries the handlers call:
  \<^item> a Python \<open>str\<close> is a list of code points; \<open>str.strip()\<close> removes the code points
    for which \<open>str.isspace()\<close> holds from both ends;
  \<^item> an SQLite INTEGER is a signed 64-bit value; the \<open>sqlite3\<close> module raises
    \<open>OverflowError\<close> when a Python \<open>int\<close> outside that range is bound to a statement;
  \<^item> a \<open>str\<close> is bound as its UTF-8 encoding: the module raises
    \<open>UnicodeEncodeError\<close> when there is none (a lone surrogate) and \<open>OverflowError\<close>
    when it is longer than \<open>INT_MAX\<close> bytes, and SQLite refuses a string, and a row,
    of more than SQLITE_MAX_LENGTH (\<open>10 ^ 9\<close>) bytes (SQLITE_TOOBIG, a \<open>DataError\<close>);
  \<^item> a statement on a table that does not exist raises \<open>OperationalError\<close>, and so
    does \<open>CREATE TABLE\<close> without \<open>IF NOT EXISTS\<close> on a table that exists;
  \<^item> an AUTOINCREMENT key is one more than the largest key the table has ever held,
    recorded in \<open>sqlite_sequence\<close>; when that is the largest 64-bit value the insertion
    fails (SQLITE_FULL, an \<open>OperationalError\<close>);
  \<^item> \<open>CURRENT_TIMESTAMP\<close> is a reading of the clock with a resolution of one second. It
    is a parameter \<open>now\<close> of the insertion, a number of seconds; the text SQLite
    stores for it has a fixed width, so \<open>ORDER BY\<close> compares two of them as the
    readings compare.
  The column \<open>completed\<close> holds integers: the program writes 0 and 1, and a row of the
  model may hold any. The model does not impose that ids are unique (the primary key);
  every insertion takes a key no row has, and no statement below needs more. The
  converter of \<open><int:task_id>\<close> matches digits only, so the handlers are called with
  ids from 0 on; the handlers themselves are defined on every \<open>int\<close>. The page
  \<open>GET /\<close> renders a template and touches no state. Floating-point JSON numbers,
  concurrent requests and failures of the file system are outside the model.
\<close>

subsection \<open>Python values\<close>

type_synonym py_str = "nat list"

definition py :: "string \<Rightarrow> py_str" where
  "py s = map of_char s"

text \<open>The value \<open>request.get_json()\<close> returns: a parsed JSON document. A \<open>dict\<close> is
  an association list read with \<open>map_of\<close>.\<close>

datatype pyval =
    PyNone
  | PyBool bool
  | PyInt int
  | PyStr py_str
  | PyList "pyval list"
  | PyDict "(py_str \<times> pyval) list"

datatype error =
    AttributeError
  | TypeError
  | OverflowError
  | UnicodeEncodeError
  | DataError
  | OperationalError

text \<open>\<open>str.isspace()\<close> of one code point (CPython's \<open>_PyUnicode_IsWhitespace\<close>).\<close>

definition py_isspace :: "nat \<Rightarrow> bool" where
  "py_isspace c \<longleftrightarrow>
     (9 \<le> c \<and> c \<le> 13) \<or> (28 \<le> c \<and> c \<le> 32) \<or> c = 133 \<or> c = 160 \<or> c = 5760 \<or>
     (8192 \<le> c \<and> c \<le> 8202) \<or> c = 8232 \<or> c = 8233 \<or> c = 8239 \<or> c = 8287 \<or> c = 12288"

definition py_strip :: "py_str \<Rightarrow> py_str" where
  "py_strip s = rev (dropWhile py_isspace (rev (dropWhile py_isspace s)))"

text \<open>\<open>data.get(key, default)\<close>: only a \<open>dict\<close> has the method.\<close>

fun py_get :: "pyval \<Rightarrow> py_str \<Rightarrow> pyval \<Rightarrow> error + pyval" where
  "py_get (PyDict kvs) key dflt =
     Inr (case map_of kvs key of None \<Rightarrow> dflt | Some v \<Rightarrow> v)"
| "py_get _ key dflt = Inl AttributeError"

text \<open>\<open>value.strip()\<close>: only a \<open>str\<close> has the method.\<close>

fun strip :: "pyval \<Rightarrow> error + py_str" where
  "strip (PyStr s) = Inr (py_strip s)"
| "strip _ = Inl AttributeError"

subsection \<open>The store\<close>

type_synonym int64 = "64 word"

record row =
  row_id :: int64
  row_description :: py_str
  row_completed :: int64
  row_created_at :: nat

text \<open>The table \<open>tasks\<close>: its schema as \<open>CREATE TABLE\<close> recorded it (the columns with
  their declarations), its rows, and its entry in \<open>sqlite_sequence\<close>. The database is
  \<open>None\<close> while the table does not exist. The program creates the table with one
  schema, \<open>tasks_schema\<close> below, and has no statement that alters it; a row has the
  four columns of that schema.\<close>

record table =
  schema :: "(string \<times> string) list"
  rows :: "row list"
  seq :: int64

type_synonym db = "table option"

definition MAX_ROWID :: int where
  "MAX_ROWID = 2 ^ 63 - 1"

definition MIN_ROWID :: int where
  "MIN_ROWID = - (2 ^ 63)"

text \<open>Binding a Python \<open>int\<close> to a statement.\<close>

definition bind_int :: "int \<Rightarrow> error + int64" where
  "bind_int n =
     (if MIN_ROWID \<le> n \<and> n \<le> MAX_ROWID then Inr (word_of_int n) else Inl OverflowError)"

text \<open>Binding a Python \<open>str\<close>: its UTF-8 encoding exists when no code point is a
  surrogate, and has one to four bytes for each code point.\<close>

definition utf8_encodable :: "py_str \<Rightarrow> bool" where
  "utf8_encodable s = list_all (\<lambda>c. c < 55296 \<or> (57343 < c \<and> c < 1114112)) s"

definition utf8_length :: "py_str \<Rightarrow> nat" where
  "utf8_length s =
     sum_list (map (\<lambda>c. if c < 128 then 1 else if c < 2048 then 2 else if c < 65536 then 3 else 4) s)"

definition INT_MAX :: nat where
  "INT_MAX = 2 ^ 31 - 1"

definition SQLITE_MAX_LENGTH :: nat where
  "SQLITE_MAX_LENGTH = 1000000000"

text \<open>The bytes of the row an insertion builds (SQLite's record format): a header of one
  byte for its own length and a variable-length integer for the type of each column,
  then the values. The \<open>id\<close> is the key of the row and takes no space, nor does the
  integer 0 of \<open>completed\<close>; the description of \<open>n\<close> bytes has the type \<open>2 * n + 13\<close>;
  \<open>created_at\<close> is a text of 19 bytes.\<close>

definition varint_length :: "nat \<Rightarrow> nat" where
  "varint_length v =
     (if v < 2 ^ 7 then 1 else if v < 2 ^ 14 then 2 else if v < 2 ^ 21 then 3
      else if v < 2 ^ 28 then 4 else if v < 2 ^ 35 then 5 else if v < 2 ^ 42 then 6
      else if v < 2 ^ 49 then 7 else if v < 2 ^ 56 then 8 else 9)"

definition record_length :: "py_str \<Rightarrow> nat" where
  "record_length description =
     (1 + (1 + varint_length (2 * utf8_length description + 13) + 1 + 1)) +
     (utf8_length description + 19)"

text \<open>Python's \<open>bool(v)\<close> of an integer column value, and the integer a \<open>bool\<close> is bound
  as.\<close>

definition py_bool :: "int64 \<Rightarrow> bool" where
  "py_bool v \<longleftrightarrow> v \<noteq> 0"

definition bind_bool :: "bool \<Rightarrow> int64" where
  "bind_bool b = (if b then 1 else 0)"

text \<open>The columns of \<^verbatim>\<open>CREATE TABLE IF NOT EXISTS tasks (...)\<close> in \<open>init_db\<close>.\<close>

definition tasks_schema :: "(string \<times> string) list" where
  "tasks_schema =
     [(''id'', ''INTEGER PRIMARY KEY AUTOINCREMENT''),
      (''description'', ''TEXT NOT NULL''),
      (''completed'', ''BOOLEAN DEFAULT FALSE''),
      (''created_at'', ''TIMESTAMP DEFAULT CURRENT_TIMESTAMP'')]"

text \<open>\<^verbatim>\<open>CREATE TABLE [IF NOT EXISTS] tasks (...)\<close>: on a database that has the table
  the statement raises \<open>OperationalError\<close> (table tasks already exists), unless it
  says \<open>IF NOT EXISTS\<close>; then it does nothing, whatever the schema of the table is.\<close>

definition create_table :: "bool \<Rightarrow> db \<Rightarrow> error + db" where
  "create_table if_not_exists db =
     (case db of
        None \<Rightarrow> Inr (Some \<lparr>schema = tasks_schema, rows = [], seq = 0\<rparr>)
      | Some t \<Rightarrow> if if_not_exists then Inr (Some t) else Inl OperationalError)"

text \<open>\<open>init_db()\<close> executes the statement with \<open>IF NOT EXISTS\<close> and commits; an
  exception of the statement would leave it uncaught.\<close>

definition init_db :: "db \<Rightarrow> error + db" where
  "init_db db = create_table True db"

text \<open>The key of the next inserted row (SQLite's \<open>OP_NewRowid\<close> with AUTOINCREMENT): one
  more than the largest key in the table, or 1 when the table is empty, and at least one
  more than \<open>seq\<close>.\<close>

definition new_rowid :: "table \<Rightarrow> error + int" where
  "new_rowid t =
     (case rows t of
        [] \<Rightarrow>
          if sint (seq t) = MAX_ROWID then Inl OperationalError
          else Inr (max 1 (sint (seq t) + 1))
      | r # rs \<Rightarrow>
          let largest = fold max (map (\<lambda>r. sint (row_id r)) rs) (sint (row_id r)) in
          if largest = MAX_ROWID \<or> sint (seq t) = MAX_ROWID then Inl OperationalError
          else Inr (max (largest + 1) (sint (seq t) + 1)))"

text \<open>\<^verbatim>\<open>INSERT INTO tasks (description, completed) VALUES (?, ?)\<close> with
  \<open>cursor.lastrowid\<close> as the second component of the result. The statement is
  prepared, its parameters are bound, the key is taken and the row is built, in this
  order; the first step that fails raises.\<close>

definition insert_task :: "py_str \<Rightarrow> bool \<Rightarrow> nat \<Rightarrow> db \<Rightarrow> error + (db \<times> int)" where
  "insert_task description completed now db =
     (case db of
        None \<Rightarrow> Inl OperationalError
      | Some t \<Rightarrow>
          if \<not> utf8_encodable description then Inl UnicodeEncodeError
          else if INT_MAX < utf8_length description then Inl OverflowError
          else if SQLITE_MAX_LENGTH < utf8_length description then Inl DataError
          else
            (case new_rowid t of
               Inl e \<Rightarrow> Inl e
             | Inr v \<Rightarrow>
                 if SQLITE_MAX_LENGTH < record_length description then Inl DataError
                 else
                   Inr (Some (t\<lparr>rows := rows t @
                                [\<lparr>row_id = word_of_int v, row_description = description,
                                  row_completed = bind_bool completed, row_created_at = now\<rparr>],
                              seq := word_of_int v\<rparr>), v)))"

text \<open>\<^verbatim>\<open>SELECT * FROM tasks WHERE id = ?\<close> followed by \<open>fetchone()\<close>.\<close>

definition select_by_id :: "int \<Rightarrow> db \<Rightarrow> error + row option" where
  "select_by_id task_id db =
     (case db of
        None \<Rightarrow> Inl OperationalError
      | Some t \<Rightarrow>
          (case bind_int task_id of
             Inl e \<Rightarrow> Inl e
           | Inr k \<Rightarrow> Inr (find (\<lambda>r. row_id r = k) (rows t))))"

text \<open>\<^verbatim>\<open>UPDATE tasks SET completed = ? WHERE id = ?\<close>\<close>

definition update_completed :: "bool \<Rightarrow> int \<Rightarrow> db \<Rightarrow> error + db" where
  "update_completed new_status task_id db =
     (case db of
        None \<Rightarrow> Inl OperationalError
      | Some t \<Rightarrow>
          (case bind_int task_id of
             Inl e \<Rightarrow> Inl e
           | Inr k \<Rightarrow>
               Inr (Some (t\<lparr>rows :=
                  map (\<lambda>r. if row_id r = k then r\<lparr>row_completed := bind_bool new_status\<rparr> else r)
                    (rows t)\<rparr>))))"

text \<open>\<^verbatim>\<open>DELETE FROM tasks WHERE id = ?\<close>\<close>

definition delete_by_id :: "int \<Rightarrow> db \<Rightarrow> error + db" where
  "delete_by_id task_id db =
     (case db of
        None \<Rightarrow> Inl OperationalError
      | Some t \<Rightarrow>
          (case bind_int task_id of
             Inl e \<Rightarrow> Inl e
           | Inr k \<Rightarrow> Inr (Some (t\<lparr>rows := filter (\<lambda>r. row_id r \<noteq> k) (rows t)\<rparr>))))"

text \<open>\<^verbatim>\<open>SELECT * FROM tasks ORDER BY created_at DESC\<close> followed by \<open>fetchall()\<close>. SQLite
  fixes the order of two rows with the same \<open>created_at\<close> nowhere; \<open>fetched\<close> is a
  possible answer when it holds the rows of the table, each as often as the table does,
  in an order where \<open>created_at\<close> never increases.\<close>

definition order_by_created_at_desc :: "row list \<Rightarrow> row list \<Rightarrow> bool" where
  "order_by_created_at_desc stored fetched \<longleftrightarrow>
     mset fetched = mset stored \<and>
     sorted_wrt (\<lambda>a b. row_created_at b \<le> row_created_at a) fetched"

subsection \<open>Responses\<close>

record task_data =
  json_id :: int
  json_description :: py_str
  json_completed :: bool
  json_created_at :: nat

datatype body =
    Error string
  | Message string
  | Task task_data
  | Tasks "task_data list"

type_synonym response = "body \<times> nat"

text \<open>The dictionary every handler builds from a row.\<close>

definition task_dict :: "row \<Rightarrow> task_data" where
  "task_dict task =
     \<lparr>json_id = sint (row_id task), json_description = row_description task,
      json_completed = py_bool (row_completed task), json_created_at = row_created_at task\<rparr>"

subsection \<open>The handlers\<close>

text \<open>\<open>GET /api/tasks\<close>. \<open>fetched\<close> is the list the store answers the query with.\<close>

definition get_tasks :: "db \<Rightarrow> row list \<Rightarrow> error + response" where
  "get_tasks db fetched =
     (case db of
        None \<Rightarrow> Inl OperationalError
      | Some t \<Rightarrow> Inr (Tasks (map task_dict fetched), 200))"

text \<open>\<open>POST /add\<close>. \<open>data\<close> is what \<open>request.get_json()\<close> returned. The row is committed
  before the response is built.\<close>

definition add_task :: "pyval \<Rightarrow> nat \<Rightarrow> db \<Rightarrow> db \<times> (error + response)" where
  "add_task data now db =
     (case py_get data (py ''description'') (PyStr []) of
        Inl e \<Rightarrow> (db, Inl e)
      | Inr v \<Rightarrow>
          (case strip v of
             Inl e \<Rightarrow> (db, Inl e)
           | Inr description \<Rightarrow>
               if description = [] then (db, Inr (Error ''Task description cannot be empty'', 400))
               else
                 (case insert_task description False now db of
                    Inl e \<Rightarrow> (db, Inl e)
                  | Inr (db', task_id) \<Rightarrow>
                      (case select_by_id task_id db' of
                         Inl e \<Rightarrow> (db, Inl e)
                       | Inr None \<Rightarrow> (db', Inl TypeError)
                       | Inr (Some new_task) \<Rightarrow> (db', Inr (Task (task_dict new_task), 201))))))"

text \<open>\<open>PUT /complete/<int:task_id>\<close>\<close>

definition complete_task :: "int \<Rightarrow> db \<Rightarrow> db \<times> (error + response)" where
  "complete_task task_id db =
     (case select_by_id task_id db of
        Inl e \<Rightarrow> (db, Inl e)
      | Inr None \<Rightarrow> (db, Inr (Error ''Task not found'', 404))
      | Inr (Some task) \<Rightarrow>
          (let new_status = \<not> py_bool (row_completed task) in
           case update_completed new_status task_id db of
             Inl e \<Rightarrow> (db, Inl e)
           | Inr db' \<Rightarrow>
               (case select_by_id task_id db' of
                  Inl e \<Rightarrow> (db, Inl e)
                | Inr None \<Rightarrow> (db', Inl TypeError)
                | Inr (Some updated_task) \<Rightarrow> (db', Inr (Task (task_dict updated_task), 200)))))"

text \<open>\<open>DELETE /delete/<int:task_id>\<close>\<close>

definition delete_task :: "int \<Rightarrow> db \<Rightarrow> db \<times> (error + response)" where
  "delete_task task_id db =
     (case select_by_id task_id db of
        Inl e \<Rightarrow> (db, Inl e)
      | Inr None \<Rightarrow> (db, Inr (Error ''Task not found'', 404))
      | Inr (Some task) \<Rightarrow>
          (case delete_by_id task_id db of
             Inl e \<Rightarrow> (db, Inl e)
           | Inr db' \<Rightarrow> (db', Inr (Message ''Task deleted successfully'', 200))))"

subsection \<open>Sequences of requests\<close>

datatype request =
    Add pyval nat
  | Complete int
  | Delete int

fun handle :: "request \<Rightarrow> db \<Rightarrow> db \<times> (error + response)" where
  "handle (Add data now) db = add_task data now db"
| "handle (Complete task_id) db = complete_task task_id db"
| "handle (Delete task_id) db = delete_task task_id db"

text \<open>The requests are served one after the other; the result is the final database and
  the responses in the order of the requests.\<close>

fun serve :: "request list \<Rightarrow> db \<Rightarrow> db \<times> (error + response) list" where
  "serve [] db = (db, [])"
| "serve (q # qs) db =
     (case handle q db of (db', resp) \<Rightarrow>
        (case serve qs db' of (db'', resps) \<Rightarrow> (db'', resp # resps)))"

subsection \<open>Predicates of the specification\<close>

text \<open>A description is trimmed when it is not empty and neither begins nor ends with
  a whitespace character.\<close>

definition trimmed :: "py_str \<Rightarrow> bool" where
  "trimmed s \<longleftrightarrow> s \<noteq> [] \<and> \<not> py_isspace (hd s) \<and> \<not> py_isspace (last s)"

definition descriptions_trimmed :: "db \<Rightarrow> bool" where
  "descriptions_trimmed db \<longleftrightarrow>
     (case db of None \<Rightarrow> True | Some t \<Rightarrow> list_all (\<lambda>r. trimmed (row_description r)) (rows t))"

text \<open>A successful add is answered with status 201; only \<open>POST /add\<close> answers with
  it.\<close>

fun created :: "error + response \<Rightarrow> bool" where
  "created (Inr (Task new, code)) \<longleftrightarrow> code = 201"
| "created _ \<longleftrightarrow> False"

fun is_delete :: "request \<Rightarrow> bool" where
  "is_delete (Delete task_id) \<longleftrightarrow> True"
| "is_delete _ \<longleftrightarrow> False"

text \<open>The ids of the rows of the table.\<close>

definition ids :: "table \<Rightarrow> int list" where
  "ids t = map (\<lambda>r. sint (row_id r)) (rows t)"

text \<open>\<open>sqlite_sequence\<close> records the largest key the table has ever held: no row has
  a larger one. SQLite keeps it so with every insertion into an AUTOINCREMENT
  table.\<close>

definition sequence_covers :: "table \<Rightarrow> bool" where
  "sequence_covers t \<longleftrightarrow> list_all (\<lambda>k. k \<le> sint (seq t)) (ids t)"

text \<open>An id is retired when no row has it and \<open>sqlite_sequence\<close> has passed it.\<close>

definition retired :: "int \<Rightarrow> db \<Rightarrow> bool" where
  "retired k db \<longleftrightarrow>
     (case db of
        None \<Rightarrow> False
      | Some t \<Rightarrow> sequence_covers t \<and> k \<le> sint (seq t) \<and> k \<notin> set (ids t))"

subsection \<open>A small store\<close>

text \<open>The store \<open>init_db\<close> creates where there was none.\<close>

definition fresh_db :: db where
  "fresh_db = Some \<lparr>schema = tasks_schema, rows = [], seq = 0\<rparr>"

text \<open>One task, \<^verbatim>\<open>{"id": 1, "description": "a", "completed": false}\<close>, created at
  second 5.\<close>

definition example_row :: row where
  "example_row = \<lparr>row_id = 1, row_description = [97], row_completed = 0, row_created_at = 5\<rparr>"

definition example_db :: db where
  "example_db = Some \<lparr>schema = tasks_schema, rows = [example_row], seq = 1\<rparr>"

text \<open>The request \<^verbatim>\<open>POST /add {"description": " b "}\<close> and the row it adds to the
  small store at second 9.\<close>

definition second_row :: row where
  "second_row = \<lparr>row_id = 2, row_description = [98], row_completed = 0, row_created_at = 9\<rparr>"

definition add_b :: pyval where
  "add_b = PyDict [(py ''description'', PyStr [32, 98, 32])]"




text \<open>A store whose one task has the integer 5 in its \<open>completed\<close> column.\<close>

definition odd_row :: row where
  "odd_row = \<lparr>row_id = 3, row_description = [99], row_completed = 5, row_created_at = 2\<rparr>"

definition odd_db :: db where
  "odd_db = Some \<lparr>schema = tasks_schema, rows = [odd_row], seq = 3\<rparr>"

section \<open>Properties\<close>

subsection \<open>Integers, lists and strings\<close>

lemma sint_int64_range: "MIN_ROWID \<le> sint (w :: int64) \<and> sint w \<le> MAX_ROWID"
  using sint_ge [of w] sint_lt [of w] by (simp add: MIN_ROWID_def MAX_ROWID_def)

lemma sint_word_of_int64:
  "MIN_ROWID \<le> n \<Longrightarrow> n \<le> MAX_ROWID \<Longrightarrow> sint (word_of_int n :: int64) = n"
  by (simp add: sint_sbintrunc' signed_take_bit_int_eq_self MIN_ROWID_def MAX_ROWID_def)

lemma bind_int_sint: "bind_int (sint w) = Inr w"
  using sint_int64_range [of w] by (simp add: bind_int_def)

lemma bind_int_Inr: "bind_int n = Inr k \<Longrightarrow> sint k = n"
  by (auto simp: bind_int_def sint_word_of_int64 split: if_splits)

lemma find_map_same:
  "(\<And>r. P (f r) = P r) \<Longrightarrow> find P (map f xs) = map_option f (find P xs)"
  by (induction xs) simp_all

lemma fold_max_ge: "a \<le> fold max xs (a :: int)"
  by (induction xs arbitrary: a) (auto intro: order_trans [OF max.cobounded2])

lemma fold_max_ge_elem: "x \<in> set xs \<Longrightarrow> x \<le> fold max xs (a :: int)"
proof (induction xs arbitrary: a)
  case Nil
  then show ?case by simp
next
  case (Cons y ys)
  show ?case
  proof (cases "x = y")
    case True
    have "x \<le> max x a" by simp
    also have "\<dots> \<le> fold max ys (max x a)" by (rule fold_max_ge)
    finally show ?thesis using True by simp
  next
    case False
    with Cons.prems have "x \<in> set ys" by simp
    then show ?thesis using Cons.IH by simp
  qed
qed

lemma last_dropWhile: "dropWhile P xs \<noteq> [] \<Longrightarrow> last (dropWhile P xs) = last xs"
proof -
  assume ne: "dropWhile P xs \<noteq> []"
  have "last xs = last (takeWhile P xs @ dropWhile P xs)" by simp
  also have "\<dots> = last (dropWhile P xs)" using ne by (rule last_appendR)
  finally show ?thesis by simp
qed

lemma py_strip_empty_iff: "py_strip s = [] \<longleftrightarrow> (\<forall>c\<in>set s. py_isspace c)"
proof
  assume e: "py_strip s = []"
  have "dropWhile py_isspace s = []"
  proof (rule ccontr)
    assume ne: "dropWhile py_isspace s \<noteq> []"
    then have "\<not> py_isspace (hd (dropWhile py_isspace s))" by (rule hd_dropWhile)
    moreover have "hd (dropWhile py_isspace s) \<in> set (dropWhile py_isspace s)"
      using ne by simp
    moreover from e have "\<forall>c\<in>set (dropWhile py_isspace s). py_isspace c"
      by (simp add: py_strip_def)
    ultimately show False by blast
  qed
  then show "\<forall>c\<in>set s. py_isspace c" by simp
next
  assume "\<forall>c\<in>set s. py_isspace c"
  then show "py_strip s = []" by (auto simp: py_strip_def dest: set_dropWhileD)
qed

lemma set_py_strip: "set (py_strip s) \<subseteq> set s"
  by (auto simp: py_strip_def dest!: set_dropWhileD)

lemma hd_py_strip: "py_strip s \<noteq> [] \<Longrightarrow> \<not> py_isspace (hd (py_strip s))"
proof -
  assume ne: "py_strip s \<noteq> []"
  let ?d = "dropWhile py_isspace s"
  let ?x = "dropWhile py_isspace (rev ?d)"
  from ne have x: "?x \<noteq> []" by (simp add: py_strip_def)
  then have d: "?d \<noteq> []" by (auto dest: set_dropWhileD)
  have "hd (py_strip s) = last ?x" using x by (simp add: py_strip_def hd_rev)
  also have "\<dots> = last (rev ?d)" using x by (rule last_dropWhile)
  also have "\<dots> = hd ?d" by (rule last_rev)
  finally show ?thesis using hd_dropWhile [OF d] by simp
qed

lemma last_py_strip: "py_strip s \<noteq> [] \<Longrightarrow> \<not> py_isspace (last (py_strip s))"
proof -
  assume ne: "py_strip s \<noteq> []"
  let ?x = "dropWhile py_isspace (rev (dropWhile py_isspace s))"
  from ne have x: "?x \<noteq> []" by (simp add: py_strip_def)
  have "last (py_strip s) = hd ?x" by (simp add: py_strip_def last_rev)
  then show ?thesis using hd_dropWhile [OF x] by simp
qed

lemma utf8_encodable_py_strip: "utf8_encodable s \<Longrightarrow> utf8_encodable (py_strip s)"
  using set_py_strip [of s] by (auto simp: utf8_encodable_def list_all_iff)

subsection \<open>The statements of the store\<close>

lemma fold_max_le: "a \<le> m \<Longrightarrow> \<forall>x\<in>set xs. x \<le> m \<Longrightarrow> fold max xs (a :: int) \<le> m"
  by (induction xs arbitrary: a) simp_all

lemma fold_max_less: "a < m \<Longrightarrow> \<forall>x\<in>set xs. x < m \<Longrightarrow> fold max xs (a :: int) < m"
  by (induction xs arbitrary: a) simp_all

lemma new_rowid_Inr:
  assumes "new_rowid t = Inr v"
  shows "MIN_ROWID \<le> v \<and> v \<le> MAX_ROWID \<and> sint (seq t) < v \<and>
    (\<forall>r\<in>set (rows t). sint (row_id r) < v)"
proof (cases "rows t")
  case Nil
  with assms have v: "v = max 1 (sint (seq t) + 1)" and ne: "sint (seq t) \<noteq> MAX_ROWID"
    by (auto simp: new_rowid_def split: if_splits)
  from ne sint_int64_range [of "seq t"] have "sint (seq t) + 1 \<le> MAX_ROWID" by simp
  then have "v \<le> MAX_ROWID" using v by (simp add: MAX_ROWID_def)
  moreover have "MIN_ROWID \<le> v" using v by (simp add: MIN_ROWID_def)
  moreover have "sint (seq t) < v" using v by simp
  ultimately show ?thesis using Nil by simp
next
  case (Cons r rs)
  let ?l = "fold max (map (\<lambda>r. sint (row_id r)) rs) (sint (row_id r))"
  from assms Cons have v: "v = max (?l + 1) (sint (seq t) + 1)"
    and ne: "?l \<noteq> MAX_ROWID" "sint (seq t) \<noteq> MAX_ROWID"
    by (auto simp: new_rowid_def Let_def split: if_splits)
  have "?l \<le> MAX_ROWID"
    by (rule fold_max_le) (use sint_int64_range in auto)
  with ne sint_int64_range [of "seq t"] have 1: "v \<le> MAX_ROWID" using v by simp
  have "MIN_ROWID \<le> sint (seq t)" using sint_int64_range by simp
  then have 2: "MIN_ROWID \<le> v" using v by simp
  have 3: "sint (seq t) < v" using v by simp
  have "sint (row_id r) \<le> ?l" by (rule fold_max_ge)
  moreover have "\<forall>x\<in>set rs. sint (row_id x) \<le> ?l"
    by (auto intro: fold_max_ge_elem)
  ultimately have "\<forall>r\<in>set (rows t). sint (row_id r) < v" using v Cons by auto
  with 1 2 3 show ?thesis by simp
qed

lemma new_rowid_free:
  assumes "sint (seq t) < MAX_ROWID" and "\<forall>r\<in>set (rows t). sint (row_id r) < MAX_ROWID"
  shows "\<exists>v. new_rowid t = Inr v"
proof (cases "rows t")
  case Nil
  with assms show ?thesis by (simp add: new_rowid_def)
next
  case (Cons r rs)
  have "fold max (map (\<lambda>r. sint (row_id r)) rs) (sint (row_id r)) < MAX_ROWID"
    by (rule fold_max_less) (use assms Cons in auto)
  with assms Cons show ?thesis by (simp add: new_rowid_def Let_def)
qed

lemma select_by_id_SomeD:
  assumes "select_by_id task_id db = Inr (Some task)"
  shows "\<exists>t. db = Some t \<and> find (\<lambda>r. row_id r = row_id task) (rows t) = Some task"
    and "bind_int task_id = Inr (row_id task)" and "sint (row_id task) = task_id"
proof -
  from assms obtain t k where t: "db = Some t" and k: "bind_int task_id = Inr k"
    and f: "find (\<lambda>r. row_id r = k) (rows t) = Some task"
    by (auto simp: select_by_id_def split: option.splits sum.splits)
  from f have "row_id task = k" by (auto simp: find_Some_iff)
  with t k f show "\<exists>t. db = Some t \<and> find (\<lambda>r. row_id r = row_id task) (rows t) = Some task"
    and "bind_int task_id = Inr (row_id task)" by auto
  then show "sint (row_id task) = task_id" by (simp add: bind_int_Inr)
qed

lemma select_by_id_absent:
  assumes "MIN_ROWID \<le> task_id" and "task_id \<le> MAX_ROWID"
    and "task_id \<notin> (\<lambda>r. sint (row_id r)) ` set (rows t)"
  shows "select_by_id task_id (Some t) = Inr None"
proof -
  have "find (\<lambda>r. row_id r = word_of_int task_id) (rows t) = None"
  proof (rule ccontr)
    assume "find (\<lambda>r. row_id r = word_of_int task_id) (rows t) \<noteq> None"
    then obtain r where "r \<in> set (rows t)" and "row_id r = word_of_int task_id"
      by (auto simp: find_None_iff)
    with assms show False by (auto simp: sint_word_of_int64 image_iff)
  qed
  with assms show ?thesis by (simp add: select_by_id_def bind_int_def)
qed

lemma select_by_id_present:
  assumes "r \<in> set (rows t)"
  shows "\<exists>task. select_by_id (sint (row_id r)) (Some t) = Inr (Some task) \<and>
    row_id task = row_id r"
proof -
  from assms have "find (\<lambda>x. row_id x = row_id r) (rows t) \<noteq> None"
    by (auto simp: find_None_iff)
  then obtain task where f: "find (\<lambda>x. row_id x = row_id r) (rows t) = Some task" by auto
  then have "row_id task = row_id r" by (auto simp: find_Some_iff)
  with f show ?thesis by (simp add: select_by_id_def bind_int_sint)
qed

lemma find_snoc:
  "find P (xs @ [r]) = (case find P xs of None \<Rightarrow> if P r then Some r else None | Some x \<Rightarrow> Some x)"
  by (induction xs) simp_all

lemma select_by_id_new:
  assumes "new_rowid t = Inr v" and "row_id r = word_of_int v"
  shows "select_by_id v (Some (t\<lparr>rows := rows t @ [r], seq := s\<rparr>)) = Inr (Some r)"
proof -
  note v = new_rowid_Inr [OF assms(1)]
  have "\<forall>x\<in>set (rows t). row_id x \<noteq> word_of_int v"
  proof
    fix x assume "x \<in> set (rows t)"
    with v have "sint (row_id x) < v" by simp
    moreover have "sint (word_of_int v :: int64) = v" using v by (simp add: sint_word_of_int64)
    ultimately show "row_id x \<noteq> word_of_int v" by auto
  qed
  then have "find (\<lambda>x. row_id x = word_of_int v) (rows t) = None"
    by (simp add: find_None_iff)
  then have "find (\<lambda>x. row_id x = word_of_int v) (rows t @ [r]) = Some r"
    using assms(2) by (simp add: find_snoc)
  with v show ?thesis by (simp add: select_by_id_def bind_int_def)
qed

subsection \<open>What each handler does\<close>

lemma complete_task_found:
  assumes "select_by_id task_id (Some t) = Inr (Some task)"
  defines "t' \<equiv> t\<lparr>rows := map (\<lambda>r. if row_id r = row_id task
      then r\<lparr>row_completed := bind_bool (\<not> py_bool (row_completed task))\<rparr> else r) (rows t)\<rparr>"
  defines "task' \<equiv> task\<lparr>row_completed := bind_bool (\<not> py_bool (row_completed task))\<rparr>"
  shows "complete_task task_id (Some t) = (Some t', Inr (Task (task_dict task'), 200))"
    and "select_by_id task_id (Some t') = Inr (Some task')"
proof -
  note s = select_by_id_SomeD [OF assms(1)]
  from s(1) have f: "find (\<lambda>r. row_id r = row_id task) (rows t) = Some task" by simp
  have u: "update_completed (\<not> py_bool (row_completed task)) task_id (Some t) = Inr (Some t')"
    using s(2) by (simp add: update_completed_def t'_def)
  have "find (\<lambda>r. row_id r = row_id task) (rows t') =
      map_option (\<lambda>r. if row_id r = row_id task
        then r\<lparr>row_completed := bind_bool (\<not> py_bool (row_completed task))\<rparr> else r)
        (find (\<lambda>r. row_id r = row_id task) (rows t))"
    unfolding t'_def by (simp add: find_map_same)
  with f have "find (\<lambda>r. row_id r = row_id task) (rows t') = Some task'"
    by (simp add: task'_def)
  with s(2) show 2: "select_by_id task_id (Some t') = Inr (Some task')"
    by (simp add: select_by_id_def)
  with assms(1) u show "complete_task task_id (Some t) = (Some t', Inr (Task (task_dict task'), 200))"
    by (simp add: complete_task_def)
qed

lemma delete_task_found:
  assumes "select_by_id task_id (Some t) = Inr (Some task)"
  shows "delete_task task_id (Some t) =
    (Some (t\<lparr>rows := filter (\<lambda>r. row_id r \<noteq> row_id task) (rows t)\<rparr>),
     Inr (Message ''Task deleted successfully'', 200))"
proof -
  note s = select_by_id_SomeD [OF assms]
  then have "delete_by_id task_id (Some t) =
      Inr (Some (t\<lparr>rows := filter (\<lambda>r. row_id r \<noteq> row_id task) (rows t)\<rparr>))"
    by (simp add: delete_by_id_def)
  with assms show ?thesis by (simp add: delete_task_def)
qed

lemma record_length_fits:
  assumes "record_length d \<le> SQLITE_MAX_LENGTH"
  shows "\<not> INT_MAX < utf8_length d" and "\<not> SQLITE_MAX_LENGTH < utf8_length d"
    and "\<not> SQLITE_MAX_LENGTH < record_length d"
  using assms by (simp_all add: record_length_def SQLITE_MAX_LENGTH_def INT_MAX_def)

lemma add_task_created:
  assumes "map_of kvs (py ''description'') = Some (PyStr s)" and "py_strip s \<noteq> []"
    and "utf8_encodable (py_strip s)" and "new_rowid t = Inr v"
    and "record_length (py_strip s) \<le> SQLITE_MAX_LENGTH"
  shows "add_task (PyDict kvs) now (Some t) =
    (Some (t\<lparr>rows := rows t @ [\<lparr>row_id = word_of_int v, row_description = py_strip s,
        row_completed = 0, row_created_at = now\<rparr>], seq := word_of_int v\<rparr>),
     Inr (Task \<lparr>json_id = v, json_description = py_strip s, json_completed = False,
        json_created_at = now\<rparr>, 201))"
proof -
  let ?r = "\<lparr>row_id = word_of_int v, row_description = py_strip s,
        row_completed = 0, row_created_at = now\<rparr>"
  let ?t = "t\<lparr>rows := rows t @ [?r], seq := word_of_int v\<rparr>"
  have i: "insert_task (py_strip s) False now (Some t) = Inr (Some ?t, v)"
    using assms(3,4) record_length_fits [OF assms(5)]
    by (simp add: insert_task_def bind_bool_def)
  have sel: "select_by_id v (Some ?t) = Inr (Some ?r)"
    using assms(4) by (rule select_by_id_new) simp
  have "sint (word_of_int v :: int64) = v"
    using new_rowid_Inr [OF assms(4)] by (simp add: sint_word_of_int64)
  then have "task_dict ?r = \<lparr>json_id = v, json_description = py_strip s, json_completed = False,
        json_created_at = now\<rparr>"
    by (simp add: task_dict_def py_bool_def)
  with i sel assms(1,2) show ?thesis by (simp add: add_task_def)
qed

lemma add_task_cases:
  assumes "add_task data now db = (db', resp)"
  shows "(db' = db \<and> (resp = Inr (Error ''Task description cannot be empty'', 400) \<or>
        (\<exists>e. resp = Inl e))) \<or>
    (\<exists>kvs s t v. data = PyDict kvs \<and> map_of kvs (py ''description'') = Some (PyStr s) \<and>
       py_strip s \<noteq> [] \<and> utf8_encodable (py_strip s) \<and>
       record_length (py_strip s) \<le> SQLITE_MAX_LENGTH \<and> db = Some t \<and> new_rowid t = Inr v \<and>
       db' = Some (t\<lparr>rows := rows t @ [\<lparr>row_id = word_of_int v, row_description = py_strip s,
          row_completed = 0, row_created_at = now\<rparr>], seq := word_of_int v\<rparr>) \<and>
       resp = Inr (Task \<lparr>json_id = v, json_description = py_strip s, json_completed = False,
          json_created_at = now\<rparr>, 201))"
proof (cases "\<exists>kvs s t v. data = PyDict kvs \<and> map_of kvs (py ''description'') = Some (PyStr s) \<and>
       py_strip s \<noteq> [] \<and> utf8_encodable (py_strip s) \<and>
       record_length (py_strip s) \<le> SQLITE_MAX_LENGTH \<and> db = Some t \<and> new_rowid t = Inr v")
  case True
  then obtain kvs s t v where h: "data = PyDict kvs"
    "map_of kvs (py ''description'') = Some (PyStr s)" "py_strip s \<noteq> []"
    "utf8_encodable (py_strip s)" "db = Some t" "new_rowid t = Inr v"
    "record_length (py_strip s) \<le> SQLITE_MAX_LENGTH" by blast
  from add_task_created [OF h(2,3,4,6,7), of now] assms h show ?thesis by auto
next
  case False
  have "db' = db \<and> (resp = Inr (Error ''Task description cannot be empty'', 400) \<or>
        (\<exists>e. resp = Inl e))"
  proof (cases "py_get data (py ''description'') (PyStr [])")
    case (Inl e)
    with assms show ?thesis by (auto simp: add_task_def)
  next
    case (Inr x)
    then obtain kvs where d: "data = PyDict kvs" by (cases data) auto
    show ?thesis
    proof (cases "strip x")
      case (Inl e)
      with Inr assms show ?thesis by (auto simp: add_task_def)
    next
      case sx: (Inr description)
      then obtain s where x: "x = PyStr s" and ds: "description = py_strip s" by (cases x) auto
      show ?thesis
      proof (cases "description = []")
        case True
        with Inr sx assms show ?thesis by (auto simp: add_task_def)
      next
        case ne: False
        from Inr d x have m: "map_of kvs (py ''description'') = Some (PyStr s)"
          using ne ds by (auto split: option.splits simp: py_strip_def)
        have "\<exists>e. insert_task description False now db = Inl e"
          using False d m ne ds
          by (cases db) (auto simp: insert_task_def split: sum.splits)
        with Inr sx ne assms show ?thesis by (auto simp: add_task_def)
      qed
    qed
  qed
  then show ?thesis by simp
qed



lemma trimmed_py_strip: "py_strip s \<noteq> [] \<Longrightarrow> trimmed (py_strip s)"
  by (simp add: trimmed_def hd_py_strip last_py_strip)

lemma complete_task_cases:
  assumes "complete_task task_id db = (db', resp)"
  shows "(db' = db \<and> (resp = Inr (Error ''Task not found'', 404) \<or> (\<exists>e. resp = Inl e))) \<or>
    (\<exists>t task. db = Some t \<and> select_by_id task_id db = Inr (Some task) \<and>
      db' = Some (t\<lparr>rows := map (\<lambda>r. if row_id r = row_id task
        then r\<lparr>row_completed := bind_bool (\<not> py_bool (row_completed task))\<rparr> else r) (rows t)\<rparr>) \<and>
      resp = Inr (Task (task_dict (task\<lparr>row_completed :=
        bind_bool (\<not> py_bool (row_completed task))\<rparr>)), 200))"
proof (cases "select_by_id task_id db")
  case (Inl e)
  with assms show ?thesis by (auto simp: complete_task_def)
next
  case (Inr found)
  show ?thesis
  proof (cases found)
    case None
    with Inr assms show ?thesis by (simp add: complete_task_def)
  next
    case (Some task)
    with Inr obtain t where t: "db = Some t" using select_by_id_SomeD(1) by blast
    from complete_task_found(1) [of task_id t task] Inr Some t assms show ?thesis by auto
  qed
qed

lemma delete_task_cases:
  assumes "delete_task task_id db = (db', resp)"
  shows "(db' = db \<and> (resp = Inr (Error ''Task not found'', 404) \<or> (\<exists>e. resp = Inl e))) \<or>
    (\<exists>t task. db = Some t \<and> select_by_id task_id db = Inr (Some task) \<and>
      db' = Some (t\<lparr>rows := filter (\<lambda>r. row_id r \<noteq> row_id task) (rows t)\<rparr>) \<and>
      resp = Inr (Message ''Task deleted successfully'', 200))"
proof (cases "select_by_id task_id db")
  case (Inl e)
  with assms show ?thesis by (auto simp: delete_task_def)
next
  case (Inr found)
  show ?thesis
  proof (cases found)
    case None
    with Inr assms show ?thesis by (simp add: delete_task_def)
  next
    case (Some task)
    with Inr obtain t where t: "db = Some t" using select_by_id_SomeD(1) by blast
    from delete_task_found [of task_id t task] Inr Some t assms show ?thesis by auto
  qed
qed

lemma add_task_trimmed:
  assumes "add_task data now db = (db', resp)" and "descriptions_trimmed db"
  shows "descriptions_trimmed db'"
  using add_task_cases [OF assms(1)] assms(2)
  by (auto simp: descriptions_trimmed_def trimmed_py_strip)

lemma complete_task_trimmed:
  assumes "complete_task task_id db = (db', resp)" and "descriptions_trimmed db"
  shows "descriptions_trimmed db'"
  using complete_task_cases [OF assms(1)] assms(2)
  by (auto simp: descriptions_trimmed_def list_all_iff)

lemma delete_task_trimmed:
  assumes "delete_task task_id db = (db', resp)" and "descriptions_trimmed db"
  shows "descriptions_trimmed db'"
  using delete_task_cases [OF assms(1)] assms(2)
  by (auto simp: descriptions_trimmed_def list_all_iff)

lemma handle_trimmed:
  assumes "descriptions_trimmed db"
  shows "descriptions_trimmed (fst (handle q db))"
proof (cases q)
  case (Add data now)
  from add_task_trimmed [OF surjective_pairing assms] show ?thesis using Add by simp
next
  case (Complete task_id)
  from complete_task_trimmed [OF surjective_pairing assms] show ?thesis using Complete by simp
next
  case (Delete task_id)
  from delete_task_trimmed [OF surjective_pairing assms] show ?thesis using Delete by simp
qed

lemma fst_serve_Cons: "fst (serve (q # qs) db) = fst (serve qs (fst (handle q db)))"
  by (simp split: prod.splits)

lemma serve_trimmed:
  "descriptions_trimmed db \<Longrightarrow> descriptions_trimmed (fst (serve qs db))"
proof (induction qs arbitrary: db)
  case Nil
  then show ?case by simp
next
  case (Cons q qs)
  from Cons.prems have "descriptions_trimmed (fst (handle q db))" by (rule handle_trimmed)
  then have "descriptions_trimmed (fst (serve qs (fst (handle q db))))" by (rule Cons.IH)
  then show ?case by (simp only: fst_serve_Cons)
qed

lemma init_db_None: "init_db None = Inr fresh_db"
  by (simp add: init_db_def create_table_def fresh_db_def)

lemma init_db_Some: "init_db (Some t) = Inr (Some t)"
  by (simp add: init_db_def create_table_def)

lemma create_table_exists: "create_table False (Some t) = Inl OperationalError"
  by (simp add: create_table_def)

lemma init_db_trimmed:
  "descriptions_trimmed db \<Longrightarrow> \<exists>db1. init_db db = Inr db1 \<and> descriptions_trimmed db1"
  by (cases db) (simp_all add: init_db_None init_db_Some fresh_db_def descriptions_trimmed_def)

subsection \<open>The answers of the list query\<close>

lemma order_by_created_at_desc_exists:
  "order_by_created_at_desc stored (rev (sort_key row_created_at stored))"
proof -
  have "sorted (map row_created_at (sort_key row_created_at stored))" by simp
  then have "sorted_wrt (\<lambda>a b. row_created_at a \<le> row_created_at b) (sort_key row_created_at stored)"
    by (simp add: sorted_wrt_map)
  then have "sorted_wrt (\<lambda>a b. row_created_at b \<le> row_created_at a) (rev (sort_key row_created_at stored))"
    by (simp add: sorted_wrt_rev)
  then show ?thesis by (simp add: order_by_created_at_desc_def)
qed

subsection \<open>Sequences of requests\<close>

lemma handle_length:
  assumes "\<not> is_delete q" and "handle q (Some t) = (db', resp)"
  shows "\<exists>t'. db' = Some t' \<and>
    length (rows t') = length (rows t) + (if created resp then 1 else 0)"
proof (cases q)
  case (Add data now)
  with assms(2) have "add_task data now (Some t) = (db', resp)" by simp
  from add_task_cases [OF this] show ?thesis by auto
next
  case (Complete task_id)
  with assms(2) have "complete_task task_id (Some t) = (db', resp)" by simp
  from complete_task_cases [OF this] show ?thesis by auto
next
  case (Delete task_id)
  with assms(1) show ?thesis by simp
qed

lemma serve_length:
  assumes "\<forall>q\<in>set qs. \<not> is_delete q" and "serve qs (Some t) = (db', resps)"
  shows "\<exists>t'. db' = Some t' \<and>
    length (rows t') = length (rows t) + length (filter created resps)"
  using assms
proof (induction qs arbitrary: t db' resps)
  case Nil
  then show ?case by auto
next
  case (Cons q qs)
  obtain db1 resp where h: "handle q (Some t) = (db1, resp)" by (cases "handle q (Some t)")
  obtain db2 rest where s: "serve qs db1 = (db2, rest)" by (cases "serve qs db1")
  from Cons.prems(2) h s have e: "db' = db2" "resps = resp # rest" by simp_all
  from Cons.prems(1) have "\<not> is_delete q" by simp
  from handle_length [OF this h] obtain t1 where t1: "db1 = Some t1"
    and l1: "length (rows t1) = length (rows t) + (if created resp then 1 else 0)" by blast
  from Cons.prems(1) have "\<forall>q\<in>set qs. \<not> is_delete q" by simp
  from Cons.IH [OF this s [unfolded t1]] obtain t2 where "db2 = Some t2"
    and "length (rows t2) = length (rows t1) + length (filter created rest)" by blast
  with e l1 show ?case by simp
qed



text \<open>No request changes the schema.\<close>

lemma handle_schema:
  assumes "handle q (Some t) = (db', resp)"
  shows "\<exists>t'. db' = Some t' \<and> schema t' = schema t"
proof (cases q)
  case (Add data now)
  with assms have "add_task data now (Some t) = (db', resp)" by simp
  from add_task_cases [OF this] show ?thesis by auto
next
  case (Complete task_id)
  with assms have "complete_task task_id (Some t) = (db', resp)" by simp
  from complete_task_cases [OF this] show ?thesis by auto
next
  case (Delete task_id)
  with assms have "delete_task task_id (Some t) = (db', resp)" by simp
  from delete_task_cases [OF this] show ?thesis by auto
qed

lemma serve_schema:
  assumes "serve qs (Some t) = (db', resps)"
  shows "\<exists>t'. db' = Some t' \<and> schema t' = schema t"
  using assms
proof (induction qs arbitrary: t db' resps)
  case Nil
  then show ?case by auto
next
  case (Cons q qs)
  obtain db1 resp where h: "handle q (Some t) = (db1, resp)" by (cases "handle q (Some t)")
  obtain db2 rest where s: "serve qs db1 = (db2, rest)" by (cases "serve qs db1")
  from Cons.prems h s have e: "db' = db2" by simp
  from handle_schema [OF h] obtain t1 where t1: "db1 = Some t1" "schema t1 = schema t" by blast
  from Cons.IH [OF s [unfolded t1(1)]] obtain t2 where "db2 = Some t2" "schema t2 = schema t1"
    by blast
  with e t1 show ?case by simp
qed

lemma add_task_sequence:
  assumes "add_task data now (Some t) = (db', resp)" and "sequence_covers t"
  shows "\<exists>t'. db' = Some t' \<and> sequence_covers t' \<and> sint (seq t) \<le> sint (seq t') \<and>
    set (ids t') \<subseteq> set (ids t) \<union> {k. sint (seq t) < k} \<and>
    (\<forall>new. resp = Inr (Task new, 201) \<longrightarrow> sint (seq t) < json_id new)"
proof -
  from add_task_cases [OF assms(1)]
  consider (same) "db' = Some t" "resp = Inr (Error ''Task description cannot be empty'', 400) \<or>
        (\<exists>e. resp = Inl e)"
    | (new) s v where "new_rowid t = Inr v"
        "db' = Some (t\<lparr>rows := rows t @ [\<lparr>row_id = word_of_int v, row_description = py_strip s,
          row_completed = 0, row_created_at = now\<rparr>], seq := word_of_int v\<rparr>)"
        "resp = Inr (Task \<lparr>json_id = v, json_description = py_strip s, json_completed = False,
          json_created_at = now\<rparr>, 201)"
    by auto
  then show ?thesis
  proof cases
    case same
    with assms(2) show ?thesis by auto
  next
    case new
    note b = new_rowid_Inr [OF new(1)]
    have w: "sint (word_of_int v :: int64) = v" using b by (simp add: sint_word_of_int64)
    from assms(2) b have "\<forall>k\<in>set (ids t). k \<le> v"
      by (auto simp: sequence_covers_def list_all_iff)
    with new b w show ?thesis
      by (auto simp: sequence_covers_def ids_def list_all_iff)
  qed
qed

lemma complete_task_sequence:
  assumes "complete_task task_id (Some t) = (db', resp)"
  shows "\<exists>t'. db' = Some t' \<and> seq t' = seq t \<and> ids t' = ids t \<and>
    (\<forall>new. resp \<noteq> Inr (Task new, 201))"
  using complete_task_cases [OF assms] by (auto simp: ids_def intro!: map_cong [OF refl])

lemma delete_task_sequence:
  assumes "delete_task task_id (Some t) = (db', resp)"
  shows "\<exists>t'. db' = Some t' \<and> seq t' = seq t \<and> set (ids t') \<subseteq> set (ids t) \<and>
    (\<forall>new. resp \<noteq> Inr (Task new, 201))"
  using delete_task_cases [OF assms] by (auto simp: ids_def)

lemma handle_retired:
  assumes "retired k db" and "handle q db = (db', resp)"
  shows "retired k db' \<and> (\<forall>new. resp = Inr (Task new, 201) \<longrightarrow> json_id new \<noteq> k)"
proof -
  from assms(1) obtain t where t: "db = Some t" and c: "sequence_covers t"
    and k: "k \<le> sint (seq t)" "k \<notin> set (ids t)"
    by (auto simp: retired_def split: option.splits)
  show ?thesis
  proof (cases q)
    case (Add data now)
    with assms(2) t have "add_task data now (Some t) = (db', resp)" by simp
    from add_task_sequence [OF this c] k show ?thesis
      by (fastforce simp: retired_def)
  next
    case (Complete task_id)
    with assms(2) t have "complete_task task_id (Some t) = (db', resp)" by simp
    from complete_task_sequence [OF this] c k show ?thesis
      by (auto simp: retired_def sequence_covers_def)
  next
    case (Delete task_id)
    with assms(2) t have "delete_task task_id (Some t) = (db', resp)" by simp
    from delete_task_sequence [OF this] c k show ?thesis
      by (auto simp: retired_def sequence_covers_def list_all_iff; blast)
  qed
qed

lemma serve_retired:
  assumes "retired k db" and "serve qs db = (db', resps)"
  shows "retired k db' \<and> (\<forall>new. Inr (Task new, 201) \<in> set resps \<longrightarrow> json_id new \<noteq> k)"
  using assms
proof (induction qs arbitrary: db db' resps)
  case Nil
  then show ?case by auto
next
  case (Cons q qs)
  obtain db1 resp where h: "handle q db = (db1, resp)" by (cases "handle q db")
  obtain db2 rest where s: "serve qs db1 = (db2, rest)" by (cases "serve qs db1")
  from Cons.prems(2) h s have e: "db' = db2" "resps = resp # rest" by simp_all
  from handle_retired [OF Cons.prems(1) h] have 1: "retired k db1"
    and 2: "\<forall>new. resp = Inr (Task new, 201) \<longrightarrow> json_id new \<noteq> k" by simp_all
  from Cons.IH [OF 1 s] have "retired k db2"
    and "\<forall>new. Inr (Task new, 201) \<in> set rest \<longrightarrow> json_id new \<noteq> k" by simp_all
  with e 2 show ?case by auto
qed

lemma init_db_sequence_covers: "\<exists>t. init_db None = Inr (Some t) \<and> sequence_covers t"
  by (simp add: init_db_None fresh_db_def sequence_covers_def ids_def)

lemma handle_sequence_covers:
  assumes "sequence_covers t" and "handle q (Some t) = (db', resp)"
  shows "\<exists>t'. db' = Some t' \<and> sequence_covers t'"
proof (cases q)
  case (Add data now)
  with assms(2) have "add_task data now (Some t) = (db', resp)" by simp
  from add_task_sequence [OF this assms(1)] show ?thesis by blast
next
  case (Complete task_id)
  with assms(2) have "complete_task task_id (Some t) = (db', resp)" by simp
  from complete_task_sequence [OF this] assms(1) show ?thesis
    by (auto simp: sequence_covers_def)
next
  case (Delete task_id)
  with assms(2) have "delete_task task_id (Some t) = (db', resp)" by simp
  from delete_task_sequence [OF this] assms(1) show ?thesis
    by (auto simp: sequence_covers_def list_all_iff; blast)
qed

lemma serve_sequence_covers:
  assumes "sequence_covers t" and "serve qs (Some t) = (db', resps)"
  shows "\<exists>t'. db' = Some t' \<and> sequence_covers t'"
  using assms
proof (induction qs arbitrary: t db' resps)
  case Nil
  then show ?case by auto
next
  case (Cons q qs)
  obtain db1 resp where h: "handle q (Some t) = (db1, resp)" by (cases "handle q (Some t)")
  obtain db2 rest where s: "serve qs db1 = (db2, rest)" by (cases "serve qs db1")
  from Cons.prems(2) h s have e: "db' = db2" by simp
  from handle_sequence_covers [OF Cons.prems(1) h] obtain t1 where "db1 = Some t1"
    and "sequence_covers t1" by blast
  with Cons.IH s e show ?case by blast
qed

lemma py_bool_bind_bool: "py_bool (bind_bool b) = b"
  by (simp add: py_bool_def bind_bool_def)

lemma select_by_id_overflow:
  "task_id < MIN_ROWID \<or> MAX_ROWID < task_id \<Longrightarrow> select_by_id task_id (Some t) = Inl OverflowError"
  by (auto simp: select_by_id_def bind_int_def)

subsection \<open>The small store, evaluated\<close>

lemma select_example: "select_by_id 1 example_db = Inr (Some example_row)"
  by (simp add: select_by_id_def example_db_def example_row_def bind_int_def MIN_ROWID_def MAX_ROWID_def)

lemma py_strip_example: "py_strip [32, 98, 32] = [98]"
  by (simp add: py_strip_def py_isspace_def)

lemma record_length_example: "record_length [98] \<le> SQLITE_MAX_LENGTH"
  by (simp add: record_length_def utf8_length_def varint_length_def SQLITE_MAX_LENGTH_def)

lemma new_rowid_example: "new_rowid \<lparr>schema = tasks_schema, rows = [example_row], seq = 1\<rparr> = Inr 2"
  by (simp add: new_rowid_def example_row_def MAX_ROWID_def)

lemma add_example:
  "add_task add_b 9 example_db =
    (Some \<lparr>schema = tasks_schema, rows = [example_row, second_row], seq = 2\<rparr>,
     Inr (Task \<lparr>json_id = 2, json_description = [98], json_completed = False,
        json_created_at = 9\<rparr>, 201))"
proof -
  have "map_of [(py ''description'', PyStr [32, 98, 32])] (py ''description'') = Some (PyStr [32, 98, 32])"
    by simp
  from add_task_created [OF this _ _ new_rowid_example, of 9]
  show ?thesis
    by (simp add: py_strip_example utf8_encodable_def record_length_example add_b_def
        example_db_def second_row_def)
qed



lemma select_odd: "select_by_id 3 odd_db = Inr (Some odd_row)"
  by (simp add: select_by_id_def odd_db_def odd_row_def bind_int_def MIN_ROWID_def MAX_ROWID_def)

lemma complete_odd:
  "complete_task 3 odd_db =
    (Some \<lparr>schema = tasks_schema, rows = [odd_row\<lparr>row_completed := 0\<rparr>], seq = 3\<rparr>,
     Inr (Task \<lparr>json_id = 3, json_description = [99], json_completed = False,
        json_created_at = 2\<rparr>, 200))"
  using complete_task_found(1) [OF select_odd [unfolded odd_db_def]]
  by (simp add: odd_db_def odd_row_def task_dict_def py_bool_def bind_bool_def)






lemma delete_example:
  "delete_task 1 example_db =
    (Some \<lparr>schema = tasks_schema, rows = [], seq = 1\<rparr>, Inr (Message ''Task deleted successfully'', 200))"
  using delete_task_found [OF select_example [unfolded example_db_def]]
  by (simp add: example_db_def example_row_def)

lemma serve_after_delete:
  "serve [Add add_b 9] (Some \<lparr>schema = tasks_schema, rows = [], seq = 1\<rparr>) =
    (Some \<lparr>schema = tasks_schema, rows = [second_row], seq = 2\<rparr>,
     [Inr (Task \<lparr>json_id = 2, json_description = [98], json_completed = False,
        json_created_at = 9\<rparr>, 201)])"
proof -
  have 1: "map_of [(py ''description'', PyStr [32, 98, 32])] (py ''description'') =
      Some (PyStr [32, 98, 32])" by simp
  have 3: "new_rowid \<lparr>schema = tasks_schema, rows = [], seq = 1\<rparr> = Inr 2" by (simp add: new_rowid_def MAX_ROWID_def)
  from add_task_created [OF 1 _ _ 3, of 9]
  have "add_task add_b 9 (Some \<lparr>schema = tasks_schema, rows = [], seq = 1\<rparr>) =
    (Some \<lparr>schema = tasks_schema, rows = [second_row], seq = 2\<rparr>,
     Inr (Task \<lparr>json_id = 2, json_description = [98], json_completed = False,
        json_created_at = 9\<rparr>, 201))"
    by (simp add: py_strip_example utf8_encodable_def record_length_example add_b_def
        second_row_def)
  then show ?thesis by simp
qed

section \<open>The claims of the specification\<close>

text \<open>
  C1. For every task present in the store, the toggle operation
  (\<open>PUT /complete/<id>\<close>) flips its \<open>completed\<close> value when applied once, and
  returns \<open>completed\<close> to its original value when applied twice in succession.
  A task is present under \<open>task_id\<close> when the store answers the lookup of that id
  with it, as it does for the id of every row (\<open>select_by_id_present\<close>).
  \<open>completed\<close> is the Boolean the responses carry, \<open>bool\<close> of the stored integer:
  the first response carries the negation of the task's value and the row stores it,
  the second response is the task as it was before both requests.
\<close>

theorem toggle_once_flips_twice_restores:
  assumes "select_by_id task_id db = Inr (Some task)"
    and "complete_task task_id db = (db1, resp1)"
    and "complete_task task_id db1 = (db2, resp2)"
  shows "resp1 = Inr (Task ((task_dict task)\<lparr>json_completed := \<not> py_bool (row_completed task)\<rparr>), 200) \<and>
    select_by_id task_id db1 =
      Inr (Some (task\<lparr>row_completed := bind_bool (\<not> py_bool (row_completed task))\<rparr>)) \<and>
    resp2 = Inr (Task (task_dict task), 200) \<and>
    select_by_id task_id db2 =
      Inr (Some (task\<lparr>row_completed := bind_bool (py_bool (row_completed task))\<rparr>))"
proof -
  from assms(1) obtain t where t: "db = Some t" using select_by_id_SomeD(1) by blast
  let ?task1 = "task\<lparr>row_completed := bind_bool (\<not> py_bool (row_completed task))\<rparr>"
  note first = complete_task_found [OF assms(1) [unfolded t]]
  from first(1) assms(2) t obtain t1 where db1: "db1 = Some t1"
    and r1: "resp1 = Inr (Task (task_dict ?task1), 200)" by auto
  from first assms(2) t db1 have s1: "select_by_id task_id (Some t1) = Inr (Some ?task1)" by auto
  note second = complete_task_found [OF s1]
  note b = py_bool_bind_bool
  from second assms(3) db1 obtain t2 where db2: "db2 = Some t2"
    and r2: "resp2 = Inr (Task (task_dict (?task1\<lparr>row_completed :=
        bind_bool (\<not> py_bool (row_completed ?task1))\<rparr>)), 200)"
    and s2: "select_by_id task_id db2 = Inr (Some (?task1\<lparr>row_completed :=
        bind_bool (\<not> py_bool (row_completed ?task1))\<rparr>))" by auto
  from r1 have "resp1 = Inr (Task ((task_dict task)\<lparr>json_completed := \<not> py_bool (row_completed task)\<rparr>), 200)"
    by (simp add: task_dict_def b)
  moreover from r2 have "resp2 = Inr (Task (task_dict task), 200)"
    by (simp add: task_dict_def b)
  moreover from s2 have "select_by_id task_id db2 =
      Inr (Some (task\<lparr>row_completed := bind_bool (py_bool (row_completed task))\<rparr>))"
    by (simp add: b)
  ultimately show ?thesis using s1 db1 by simp
qed

theorem toggle_once_flips_twice_restores_witness:
  "select_by_id 1 example_db = Inr (Some example_row) \<and>
   snd (complete_task 1 example_db) =
     Inr (Task \<lparr>json_id = 1, json_description = [97], json_completed = True, json_created_at = 5\<rparr>, 200) \<and>
   snd (complete_task 1 (fst (complete_task 1 example_db))) =
     Inr (Task \<lparr>json_id = 1, json_description = [97], json_completed = False, json_created_at = 5\<rparr>, 200)"
  using toggle_once_flips_twice_restores [OF select_example surjective_pairing surjective_pairing]
  by (simp add: select_example task_dict_def example_row_def py_bool_def)

text \<open>
  C2, as stated, fails. The route \<open>/complete/<int:task_id>\<close> accepts the digits of
  \<open>2 ^ 63\<close>, which no row has as its id. Binding it to the \<open>SELECT\<close> raises
  \<open>OverflowError\<close>, which neither handler catches: the answer is a server error, not
  404. So is the answer, for any id, where the store has no tasks table: the \<open>SELECT\<close>
  raises \<open>OperationalError\<close>.
\<close>

theorem absent_id_counterexample:
  "complete_task (2 ^ 63) fresh_db = (fresh_db, Inl OverflowError) \<and>
   delete_task (2 ^ 63) fresh_db = (fresh_db, Inl OverflowError) \<and>
   complete_task 1 None = (None, Inl OperationalError) \<and>
   delete_task 1 None = (None, Inl OperationalError)"
  by (simp add: complete_task_def delete_task_def select_by_id_def bind_int_def fresh_db_def
      MIN_ROWID_def MAX_ROWID_def)

text \<open>
  C2, amended. In a store that has the tasks table, for every id the route passes to
  the handler (an integer from 0 on) that is not present in the store and is at most
  \<open>2 ^ 63 - 1\<close>, the toggle operation (\<open>PUT /complete/<id>\<close>) and the delete
  operation (\<open>DELETE /delete/<id>\<close>) each return 404 with the body
  \<^verbatim>\<open>{"error": "Task not found"}\<close>; and for every such id, whatever its size, each
  leaves the persisted state unchanged. Nothing is said of the response to a larger id.
\<close>

theorem absent_id_not_found:
  assumes "0 \<le> task_id" and "task_id \<notin> (\<lambda>r. sint (row_id r)) ` set (rows t)"
  shows "(task_id \<le> MAX_ROWID \<longrightarrow>
      complete_task task_id (Some t) = (Some t, Inr (Error ''Task not found'', 404)) \<and>
      delete_task task_id (Some t) = (Some t, Inr (Error ''Task not found'', 404))) \<and>
    fst (complete_task task_id (Some t)) = Some t \<and>
    fst (delete_task task_id (Some t)) = Some t"
proof (cases "task_id \<le> MAX_ROWID")
  case True
  from assms(1) have "MIN_ROWID \<le> task_id" by (simp add: MIN_ROWID_def)
  with True assms(2) have "select_by_id task_id (Some t) = Inr None"
    by (simp add: select_by_id_absent)
  then show ?thesis by (simp add: complete_task_def delete_task_def)
next
  case False
  then have "select_by_id task_id (Some t) = Inl OverflowError"
    by (intro select_by_id_overflow) auto
  with False show ?thesis by (simp add: complete_task_def delete_task_def)
qed

theorem absent_id_not_found_witness:
  "(0 :: int) \<le> 2 \<and> 2 \<notin> (\<lambda>r. sint (row_id r)) ` set [example_row] \<and> 2 \<le> MAX_ROWID \<and>
   complete_task 2 example_db = (example_db, Inr (Error ''Task not found'', 404)) \<and>
   delete_task 2 example_db = (example_db, Inr (Error ''Task not found'', 404)) \<and>
   fst (complete_task (2 ^ 63) example_db) = example_db \<and>
   fst (delete_task (2 ^ 63) example_db) = example_db"
  using absent_id_not_found [of 2 "\<lparr>schema = tasks_schema, rows = [example_row], seq = 1\<rparr>"]
    absent_id_not_found [of "2 ^ 63" "\<lparr>schema = tasks_schema, rows = [example_row], seq = 1\<rparr>"]
  by (simp add: example_db_def example_row_def MAX_ROWID_def)

text \<open>
  C3. For every request to \<open>POST /add\<close> whose description is missing, empty, or
  whitespace-only, the response is 400 with the body
  \<^verbatim>\<open>{"error": "Task description cannot be empty"}\<close> and no row is inserted into
  the store: the database after the request is the database before it. The request
  body is a JSON object; the description is missing when the object has no such key,
  and empty or whitespace-only when it is a string all of whose characters are
  whitespace.
\<close>

theorem empty_description_rejected:
  assumes "map_of kvs (py ''description'') = None \<or>
    (\<exists>s. map_of kvs (py ''description'') = Some (PyStr s) \<and> (\<forall>c\<in>set s. py_isspace c))"
  shows "add_task (PyDict kvs) now db = (db, Inr (Error ''Task description cannot be empty'', 400))"
proof -
  from assms obtain s where "py_get (PyDict kvs) (py ''description'') (PyStr []) = Inr (PyStr s)"
    and "\<forall>c\<in>set s. py_isspace c" by auto
  moreover from this have "py_strip s = []" by (simp add: py_strip_empty_iff)
  ultimately show ?thesis by (simp add: add_task_def)
qed

theorem empty_description_rejected_witness:
  "add_task (PyDict []) 7 example_db = (example_db, Inr (Error ''Task description cannot be empty'', 400)) \<and>
   add_task (PyDict [(py ''description'', PyStr [])]) 7 example_db =
     (example_db, Inr (Error ''Task description cannot be empty'', 400)) \<and>
   add_task (PyDict [(py ''description'', PyStr [32, 9, 10])]) 7 example_db =
     (example_db, Inr (Error ''Task description cannot be empty'', 400))"
  using empty_description_rejected [of "[]" 7 example_db]
    empty_description_rejected [of "[(py ''description'', PyStr [])]" 7 example_db]
    empty_description_rejected [of "[(py ''description'', PyStr [32, 9, 10])]" 7 example_db]
  by (simp add: py_isspace_def)






text \<open>
  C6. For every task present in the store, a successful \<open>DELETE /delete/<id>\<close>
  removes its row permanently: whatever requests follow, no row has the id, no
  \<open>GET /api/tasks\<close> result contains a task with it, and no later-created task is
  given it. The store is one where \<open>sqlite_sequence\<close> records the largest key ever
  held, as \<open>init_db\<close> establishes and every request preserves
  (\<open>init_db_sequence_covers\<close>, \<open>serve_sequence_covers\<close>).
\<close>

theorem deleted_id_never_returns:
  assumes "sequence_covers t"
    and "select_by_id task_id (Some t) = Inr (Some task)"
    and "delete_task task_id (Some t) = (db1, resp)"
    and "serve qs db1 = (db2, resps)"
  shows "resp = Inr (Message ''Task deleted successfully'', 200) \<and>
    (\<exists>t2. db2 = Some t2 \<and> task_id \<notin> set (ids t2) \<and>
       (\<forall>fetched. order_by_created_at_desc (rows t2) fetched \<longrightarrow>
          get_tasks db2 fetched = Inr (Tasks (map task_dict fetched), 200) \<and>
          task_id \<notin> json_id ` set (map task_dict fetched))) \<and>
    (\<forall>new. Inr (Task new, 201) \<in> set resps \<longrightarrow> json_id new \<noteq> task_id)"
proof -
  note s = select_by_id_SomeD [OF assms(2)]
  from s(1) have "task \<in> set (rows t)" by (auto simp: find_Some_iff in_set_conv_nth)
  with assms(1) s(3) have le: "task_id \<le> sint (seq t)"
    by (auto simp: sequence_covers_def ids_def list_all_iff)
  from delete_task_found [OF assms(2)] assms(3)
  have db1: "db1 = Some (t\<lparr>rows := filter (\<lambda>r. row_id r \<noteq> row_id task) (rows t)\<rparr>)"
    and resp: "resp = Inr (Message ''Task deleted successfully'', 200)" by simp_all
  have "task_id \<notin> set (ids (t\<lparr>rows := filter (\<lambda>r. row_id r \<noteq> row_id task) (rows t)\<rparr>))"
    using s(3) by (auto simp: ids_def dest: signed_word_eqI)
  with assms(1) le db1 have "retired task_id db1"
    by (auto simp: retired_def sequence_covers_def ids_def list_all_iff)
  from serve_retired [OF this assms(4)] have r: "retired task_id db2"
    and n: "\<forall>new. Inr (Task new, 201) \<in> set resps \<longrightarrow> json_id new \<noteq> task_id" by simp_all
  from r obtain t2 where t2: "db2 = Some t2" and a: "task_id \<notin> set (ids t2)"
    by (auto simp: retired_def split: option.splits)
  have "get_tasks db2 fetched = Inr (Tasks (map task_dict fetched), 200) \<and>
      task_id \<notin> json_id ` set (map task_dict fetched)"
    if o: "order_by_created_at_desc (rows t2) fetched" for fetched
  proof -
    from o have "mset fetched = mset (rows t2)" by (simp add: order_by_created_at_desc_def)
    then have "set fetched = set (rows t2)" by (rule mset_eq_setD)
    with a have "task_id \<notin> json_id ` set (map task_dict fetched)"
      by (auto simp: ids_def task_dict_def)
    with t2 show ?thesis by (simp add: get_tasks_def)
  qed
  with t2 a have "\<exists>t2. db2 = Some t2 \<and> task_id \<notin> set (ids t2) \<and>
       (\<forall>fetched. order_by_created_at_desc (rows t2) fetched \<longrightarrow>
          get_tasks db2 fetched = Inr (Tasks (map task_dict fetched), 200) \<and>
          task_id \<notin> json_id ` set (map task_dict fetched))" by blast
  with resp n show ?thesis by blast
qed

theorem deleted_id_never_returns_witness:
  "sequence_covers \<lparr>schema = tasks_schema, rows = [example_row], seq = 1\<rparr> \<and>
   select_by_id 1 example_db = Inr (Some example_row) \<and>
   delete_task 1 example_db =
     (Some \<lparr>schema = tasks_schema, rows = [], seq = 1\<rparr>, Inr (Message ''Task deleted successfully'', 200)) \<and>
   serve [Add add_b 9] (Some \<lparr>schema = tasks_schema, rows = [], seq = 1\<rparr>) =
     (Some \<lparr>schema = tasks_schema, rows = [second_row], seq = 2\<rparr>,
      [Inr (Task \<lparr>json_id = 2, json_description = [98], json_completed = False,
         json_created_at = 9\<rparr>, 201)]) \<and>
   1 \<notin> set (ids \<lparr>schema = tasks_schema, rows = [second_row], seq = 2\<rparr>) \<and>
   order_by_created_at_desc [second_row] [second_row] \<and>
   get_tasks (Some \<lparr>schema = tasks_schema, rows = [second_row], seq = 2\<rparr>) [second_row] =
     Inr (Tasks [task_dict second_row], 200) \<and>
   1 \<notin> json_id ` set [task_dict second_row]"
proof -
  have c: "sequence_covers \<lparr>schema = tasks_schema, rows = [example_row], seq = 1\<rparr>"
    by (simp add: sequence_covers_def ids_def example_row_def)
  have o: "order_by_created_at_desc [second_row] [second_row]"
    by (simp add: order_by_created_at_desc_def)
  from deleted_id_never_returns [OF c select_example [unfolded example_db_def]
      delete_example [unfolded example_db_def] serve_after_delete] o
  have "1 \<notin> set (ids \<lparr>schema = tasks_schema, rows = [second_row], seq = 2\<rparr>) \<and>
    get_tasks (Some \<lparr>schema = tasks_schema, rows = [second_row], seq = 2\<rparr>) [second_row] =
      Inr (Tasks [task_dict second_row], 200) \<and>
    1 \<notin> json_id ` set [task_dict second_row]"
    by auto
  with c o select_example delete_example serve_after_delete show ?thesis by simp
qed

text \<open>
  C7. For every task present in the store, the toggle operation
  (\<open>PUT /complete/<id>\<close>) changes only that task's \<open>completed\<close> field: row by row,
  \<open>id\<close>, \<open>description\<close> and \<open>created_at\<close> are what they were, and a row with
  another id is unchanged altogether. The response carries the task's \<open>id\<close>,
  \<open>description\<close> and \<open>created_at\<close>.
\<close>

theorem toggle_changes_only_completed:
  assumes "select_by_id task_id (Some t) = Inr (Some task)"
    and "complete_task task_id (Some t) = (db1, resp)"
  shows "\<exists>t1 new. db1 = Some t1 \<and> seq t1 = seq t \<and>
    list_all2 (\<lambda>r r'. row_id r' = row_id r \<and> row_description r' = row_description r \<and>
        row_created_at r' = row_created_at r \<and> (sint (row_id r) \<noteq> task_id \<longrightarrow> r' = r))
      (rows t) (rows t1) \<and>
    resp = Inr (Task new, 200) \<and> json_id new = task_id \<and>
    json_description new = row_description task \<and> json_created_at new = row_created_at task"
proof -
  note s = select_by_id_SomeD [OF assms(1)]
  let ?f = "\<lambda>r. if row_id r = row_id task
      then r\<lparr>row_completed := bind_bool (\<not> py_bool (row_completed task))\<rparr> else r"
  from complete_task_found(1) [OF assms(1)] assms(2)
  have db1: "db1 = Some (t\<lparr>rows := map ?f (rows t)\<rparr>)"
    and resp: "resp = Inr (Task (task_dict (task\<lparr>row_completed :=
        bind_bool (\<not> py_bool (row_completed task))\<rparr>)), 200)" by simp_all
  have "list_all2 (\<lambda>r r'. row_id r' = row_id r \<and> row_description r' = row_description r \<and>
        row_created_at r' = row_created_at r \<and> (sint (row_id r) \<noteq> task_id \<longrightarrow> r' = r))
      (rows t) (map ?f (rows t))"
    using s(3) by (auto simp: list_all2_map2 intro!: list_all2_same [THEN iffD2])
  with db1 resp s(3) show ?thesis by (simp add: task_dict_def)
qed

theorem toggle_changes_only_completed_witness:
  "select_by_id 1 example_db = Inr (Some example_row) \<and>
   (\<exists>t1 new. fst (complete_task 1 example_db) = Some t1 \<and> seq t1 = 1 \<and>
    list_all2 (\<lambda>r r'. row_id r' = row_id r \<and> row_description r' = row_description r \<and>
        row_created_at r' = row_created_at r \<and> (sint (row_id r) \<noteq> 1 \<longrightarrow> r' = r))
      [example_row] (rows t1) \<and>
    snd (complete_task 1 example_db) = Inr (Task new, 200) \<and> json_id new = 1 \<and>
    json_description new = [97] \<and> json_created_at new = 5)"
proof (rule conjI)
  show "select_by_id 1 example_db = Inr (Some example_row)" by (rule select_example)
  show "\<exists>t1 new. fst (complete_task 1 example_db) = Some t1 \<and> seq t1 = 1 \<and>
    list_all2 (\<lambda>r r'. row_id r' = row_id r \<and> row_description r' = row_description r \<and>
        row_created_at r' = row_created_at r \<and> (sint (row_id r) \<noteq> 1 \<longrightarrow> r' = r))
      [example_row] (rows t1) \<and>
    snd (complete_task 1 example_db) = Inr (Task new, 200) \<and> json_id new = 1 \<and>
    json_description new = [97] \<and> json_created_at new = 5"
    using toggle_changes_only_completed [OF select_example [unfolded example_db_def]
        surjective_pairing]
    by (simp add: example_db_def example_row_def)
qed

text \<open>
  C8. \<open>init_db\<close> is idempotent. Where there is no tasks table it creates the empty
  table with the program's schema. Where the table exists it succeeds without error,
  although the same statement without \<open>IF NOT EXISTS\<close> raises there
  (\<open>create_table_exists\<close>), and leaves the schema, all stored rows and the key sequence
  unchanged. So, on every database, it succeeds, and running it again on its result
  succeeds and changes nothing: running it twice equals running it once. No request
  changes the schema either (\<open>serve_schema\<close>).
\<close>

theorem init_db_idempotent:
  "init_db None = Inr (Some \<lparr>schema = tasks_schema, rows = [], seq = 0\<rparr>) \<and>
   init_db (Some t) = Inr (Some t) \<and>
   (\<exists>t1. init_db (Some t) = Inr (Some t1) \<and> schema t1 = schema t \<and> rows t1 = rows t \<and>
      seq t1 = seq t) \<and>
   (\<exists>db1. init_db db = Inr db1 \<and> init_db db1 = Inr db1 \<and> db1 \<noteq> None)"
proof (intro conjI)
  show "\<exists>t1. init_db (Some t) = Inr (Some t1) \<and> schema t1 = schema t \<and> rows t1 = rows t \<and>
      seq t1 = seq t"
    by (simp add: init_db_Some)
  show "init_db None = Inr (Some \<lparr>schema = tasks_schema, rows = [], seq = 0\<rparr>)"
    by (simp add: init_db_None fresh_db_def)
  show "init_db (Some t) = Inr (Some t)" by (rule init_db_Some)
  show "\<exists>db1. init_db db = Inr db1 \<and> init_db db1 = Inr db1 \<and> db1 \<noteq> None"
  proof (cases db)
    case None
    then show ?thesis by (simp add: init_db_None fresh_db_def init_db_Some)
  next
    case (Some t)
    then show ?thesis by (simp add: init_db_Some)
  qed
qed

theorem init_db_idempotent_witness:
  "init_db None = Inr fresh_db \<and> init_db fresh_db = Inr fresh_db \<and>
   init_db example_db = Inr example_db \<and>
   create_table False example_db = Inl OperationalError"
  using init_db_idempotent [of "\<lparr>schema = tasks_schema, rows = [example_row], seq = 1\<rparr>" None]
    init_db_idempotent [of "\<lparr>schema = tasks_schema, rows = [], seq = 0\<rparr>" None]
  by (simp add: fresh_db_def example_db_def create_table_def)

text \<open>
  C9. For every accepted \<open>POST /add\<close> request, the persisted description equals the
  submitted description with leading and trailing whitespace removed; hence every
  stored description is non-empty and has no surrounding whitespace, an invariant that
  \<open>init_db\<close> and every request preserve and that holds in every store the requests
  build from nothing.
\<close>

theorem stored_description_is_stripped:
  "(add_task data now db = (db', Inr (Task new, 201)) \<longrightarrow>
      (\<exists>kvs s t r. data = PyDict kvs \<and> map_of kvs (py ''description'') = Some (PyStr s) \<and>
         db = Some t \<and> db' = Some (t\<lparr>rows := rows t @ [r], seq := row_id r\<rparr>) \<and>
         row_description r = py_strip s \<and> json_description new = py_strip s \<and>
         trimmed (py_strip s))) \<and>
   (descriptions_trimmed db \<longrightarrow>
      (\<exists>db1. init_db db = Inr db1 \<and> descriptions_trimmed db1) \<and>
      descriptions_trimmed (fst (handle q db)) \<and>
      descriptions_trimmed (fst (serve qs db))) \<and>
   (\<exists>db0. init_db None = Inr db0 \<and> descriptions_trimmed (fst (serve qs db0)))"
proof (intro conjI impI)
  assume a: "add_task data now db = (db', Inr (Task new, 201))"
  from add_task_cases [OF a] obtain kvs s t v where h: "data = PyDict kvs"
    "map_of kvs (py ''description'') = Some (PyStr s)" "py_strip s \<noteq> []" "db = Some t"
    "db' = Some (t\<lparr>rows := rows t @ [\<lparr>row_id = word_of_int v, row_description = py_strip s,
        row_completed = 0, row_created_at = now\<rparr>], seq := word_of_int v\<rparr>)"
    "new = \<lparr>json_id = v, json_description = py_strip s, json_completed = False,
        json_created_at = now\<rparr>"
    by auto
  show "\<exists>kvs s t r. data = PyDict kvs \<and>
      map_of kvs (py ''description'') = Some (PyStr s) \<and>
      db = Some t \<and> db' = Some (t\<lparr>rows := rows t @ [r], seq := row_id r\<rparr>) \<and>
      row_description r = py_strip s \<and> json_description new = py_strip s \<and>
      trimmed (py_strip s)"
    by (intro exI [of _ kvs] exI [of _ s] exI [of _ t]
        exI [of _ "\<lparr>row_id = word_of_int v, row_description = py_strip s,
          row_completed = 0, row_created_at = now\<rparr>"])
      (simp add: h trimmed_py_strip)
next
  assume "descriptions_trimmed db"
  then show "\<exists>db1. init_db db = Inr db1 \<and> descriptions_trimmed db1" by (rule init_db_trimmed)
next
  assume "descriptions_trimmed db"
  then show "descriptions_trimmed (fst (handle q db))" by (rule handle_trimmed)
next
  assume "descriptions_trimmed db"
  then show "descriptions_trimmed (fst (serve qs db))" by (rule serve_trimmed)
next
  have "descriptions_trimmed fresh_db" by (simp add: fresh_db_def descriptions_trimmed_def)
  then have "descriptions_trimmed (fst (serve qs fresh_db))" by (rule serve_trimmed)
  with init_db_None show "\<exists>db0. init_db None = Inr db0 \<and> descriptions_trimmed (fst (serve qs db0))"
    by blast
qed

theorem stored_description_is_stripped_witness:
  "add_task add_b 9 example_db =
     (Some \<lparr>schema = tasks_schema, rows = [example_row, second_row], seq = 2\<rparr>,
      Inr (Task \<lparr>json_id = 2, json_description = [98], json_completed = False,
        json_created_at = 9\<rparr>, 201)) \<and>
   row_description second_row = py_strip [32, 98, 32] \<and> trimmed (py_strip [32, 98, 32]) \<and>
   descriptions_trimmed example_db \<and> init_db example_db = Inr example_db \<and>
   descriptions_trimmed (fst (handle (Add add_b 9) example_db)) \<and>
   descriptions_trimmed (fst (serve [Add add_b 9, Complete 1, Delete 2] example_db))"
proof -
  have t: "descriptions_trimmed example_db"
    by (simp add: descriptions_trimmed_def example_db_def example_row_def trimmed_def
        py_isspace_def)
  note c = stored_description_is_stripped [of add_b 9 example_db
      "Some \<lparr>schema = tasks_schema, rows = [example_row, second_row], seq = 2\<rparr>"
      "\<lparr>json_id = 2, json_description = [98], json_completed = False, json_created_at = 9\<rparr>"
      "Add add_b 9" "[Add add_b 9, Complete 1, Delete 2]"]
  from c add_example have "trimmed (py_strip [32, 98, 32])"
    by (auto simp: add_b_def)
  moreover from c t have "descriptions_trimmed (fst (handle (Add add_b 9) example_db)) \<and>
      descriptions_trimmed (fst (serve [Add add_b 9, Complete 1, Delete 2] example_db))"
    by blast
  moreover have "init_db example_db = Inr example_db"
    by (simp add: example_db_def init_db_Some)
  ultimately show ?thesis using t add_example
    by (simp add: second_row_def py_strip_example)
qed

text \<open>
  C10. In every JSON response that contains a task (list, add, toggle), the
  \<open>completed\<close> field is the truthiness of the stored value: true for a stored integer
  other than zero, false for zero. The list answers with the tasks of the rows the
  store answers the query with, which are the rows of the table; an add that the store
  accepts answers 201 with the task of the row the table then holds under the new id,
  whose stored value is 0; a toggle of a present task answers 200 with the task of the
  row the table then holds under the id. Toggling flips the truthiness of the stored
  value and stores 0 or 1, never another integer. No handler answers with a task
  otherwise.
\<close>

theorem completed_is_truthiness:
  "(get_tasks db fetched = Inr (Tasks ts, code) \<longrightarrow>
      list_all2 (\<lambda>r j. json_id j = sint (row_id r) \<and> json_completed j = (row_completed r \<noteq> 0))
        fetched ts \<and>
      (\<forall>t. db = Some t \<and> order_by_created_at_desc (rows t) fetched \<longrightarrow>
         set fetched = set (rows t))) \<and>
   (db \<noteq> None \<longrightarrow> (\<exists>ts. get_tasks db fetched = Inr (Tasks ts, 200) \<and> length ts = length fetched)) \<and>
   (add_task data now db = (db', Inr (Task new, code)) \<longrightarrow>
      (\<exists>r. select_by_id (json_id new) db' = Inr (Some r) \<and>
         json_completed new = (row_completed r \<noteq> 0) \<and> row_completed r = 0)) \<and>
   (\<forall>kvs s t. data = PyDict kvs \<and> map_of kvs (py ''description'') = Some (PyStr s) \<and>
        (\<exists>c\<in>set s. \<not> py_isspace c) \<and> utf8_encodable (py_strip s) \<and>
        record_length (py_strip s) \<le> SQLITE_MAX_LENGTH \<and> db = Some t \<and>
        sint (seq t) < MAX_ROWID \<and> (\<forall>r\<in>set (rows t). sint (row_id r) < MAX_ROWID) \<longrightarrow>
      (\<exists>db1 new1 r. add_task data now db = (db1, Inr (Task new1, 201)) \<and>
         select_by_id (json_id new1) db1 = Inr (Some r) \<and>
         json_completed new1 = (row_completed r \<noteq> 0) \<and> row_completed r = 0)) \<and>
   (complete_task task_id db = (db', Inr (Task new, code)) \<longrightarrow>
      (\<exists>task r. select_by_id task_id db = Inr (Some task) \<and>
         select_by_id task_id db' = Inr (Some r) \<and> json_id new = task_id \<and>
         json_completed new = (row_completed r \<noteq> 0) \<and>
         (row_completed r \<noteq> 0) = (row_completed task = 0) \<and>
         (row_completed r = 0 \<or> row_completed r = 1))) \<and>
   (\<forall>task. select_by_id task_id db = Inr (Some task) \<longrightarrow>
      (\<exists>db1 new1 r. complete_task task_id db = (db1, Inr (Task new1, 200)) \<and>
         select_by_id task_id db1 = Inr (Some r) \<and> json_id new1 = task_id \<and>
         json_completed new1 = (row_completed r \<noteq> 0) \<and>
         (row_completed r \<noteq> 0) = (row_completed task = 0) \<and>
         (row_completed r = 0 \<or> row_completed r = 1)))"
proof (intro conjI impI allI)
  assume "get_tasks db fetched = Inr (Tasks ts, code)"
  then have "ts = map task_dict fetched"
    by (auto simp: get_tasks_def split: option.splits)
  then show "list_all2 (\<lambda>r j. json_id j = sint (row_id r) \<and>
      json_completed j = (row_completed r \<noteq> 0)) fetched ts"
    by (simp add: list_all2_map2 list_all2_same task_dict_def py_bool_def)
next
  fix t
  assume "db = Some t \<and> order_by_created_at_desc (rows t) fetched"
  then show "set fetched = set (rows t)"
    by (auto simp: order_by_created_at_desc_def dest: mset_eq_setD)
next
  assume "db \<noteq> None"
  then show "\<exists>ts. get_tasks db fetched = Inr (Tasks ts, 200) \<and> length ts = length fetched"
    by (auto simp: get_tasks_def)
next
  assume a: "add_task data now db = (db', Inr (Task new, code))"
  from add_task_cases [OF a] obtain s t v where v: "new_rowid t = Inr v"
    and db': "db' = Some (t\<lparr>rows := rows t @ [\<lparr>row_id = word_of_int v,
        row_description = py_strip s, row_completed = 0, row_created_at = now\<rparr>],
        seq := word_of_int v\<rparr>)"
    and new: "new = \<lparr>json_id = v, json_description = py_strip s, json_completed = False,
        json_created_at = now\<rparr>"
    by auto
  have "select_by_id v db' = Inr (Some \<lparr>row_id = word_of_int v,
        row_description = py_strip s, row_completed = 0, row_created_at = now\<rparr>)"
    unfolding db' using v by (rule select_by_id_new) simp
  with new show "\<exists>r. select_by_id (json_id new) db' = Inr (Some r) \<and>
         json_completed new = (row_completed r \<noteq> 0) \<and> row_completed r = 0"
    by simp
next
  fix kvs s t
  assume h: "data = PyDict kvs \<and> map_of kvs (py ''description'') = Some (PyStr s) \<and>
        (\<exists>c\<in>set s. \<not> py_isspace c) \<and> utf8_encodable (py_strip s) \<and>
        record_length (py_strip s) \<le> SQLITE_MAX_LENGTH \<and> db = Some t \<and>
        sint (seq t) < MAX_ROWID \<and> (\<forall>r\<in>set (rows t). sint (row_id r) < MAX_ROWID)"
  then have ne: "py_strip s \<noteq> []" by (simp add: py_strip_empty_iff)
  from h have "sint (seq t) < MAX_ROWID" and "\<forall>r\<in>set (rows t). sint (row_id r) < MAX_ROWID"
    by simp_all
  from new_rowid_free [OF this] obtain v where v: "new_rowid t = Inr v" ..
  let ?r = "\<lparr>row_id = word_of_int v, row_description = py_strip s, row_completed = 0,
      row_created_at = now\<rparr>"
  from h have m: "map_of kvs (py ''description'') = Some (PyStr s)"
    and enc: "utf8_encodable (py_strip s)"
    and fits: "record_length (py_strip s) \<le> SQLITE_MAX_LENGTH" by simp_all
  from add_task_created [OF m ne enc v fits, of now] h
  have a: "add_task data now db =
    (Some (t\<lparr>rows := rows t @ [?r], seq := word_of_int v\<rparr>),
     Inr (Task \<lparr>json_id = v, json_description = py_strip s, json_completed = False,
        json_created_at = now\<rparr>, 201))" by simp
  have sel: "select_by_id v (Some (t\<lparr>rows := rows t @ [?r], seq := word_of_int v\<rparr>)) =
      Inr (Some ?r)"
    using v by (rule select_by_id_new) simp
  show "\<exists>db1 new1 r. add_task data now db = (db1, Inr (Task new1, 201)) \<and>
         select_by_id (json_id new1) db1 = Inr (Some r) \<and>
         json_completed new1 = (row_completed r \<noteq> 0) \<and> row_completed r = 0"
    by (intro exI [of _ "Some (t\<lparr>rows := rows t @ [?r], seq := word_of_int v\<rparr>)"]
        exI [of _ "\<lparr>json_id = v, json_description = py_strip s, json_completed = False,
          json_created_at = now\<rparr>"] exI [of _ ?r])
      (simp add: a sel)
next
  assume c: "complete_task task_id db = (db', Inr (Task new, code))"
  from complete_task_cases [OF c] obtain t task where t: "db = Some t"
    and s: "select_by_id task_id db = Inr (Some task)"
    and new: "new = task_dict (task\<lparr>row_completed :=
        bind_bool (\<not> py_bool (row_completed task))\<rparr>)" by auto
  from complete_task_found [OF s [unfolded t]] c t
  have s': "select_by_id task_id db' = Inr (Some (task\<lparr>row_completed :=
        bind_bool (\<not> py_bool (row_completed task))\<rparr>))" by simp
  from select_by_id_SomeD(3) [OF s] have "sint (row_id task) = task_id" .
  with s s' new show "\<exists>task r. select_by_id task_id db = Inr (Some task) \<and>
         select_by_id task_id db' = Inr (Some r) \<and> json_id new = task_id \<and>
         json_completed new = (row_completed r \<noteq> 0) \<and>
         (row_completed r \<noteq> 0) = (row_completed task = 0) \<and>
         (row_completed r = 0 \<or> row_completed r = 1)"
    by (simp add: task_dict_def py_bool_def bind_bool_def)
next
  fix task
  assume s: "select_by_id task_id db = Inr (Some task)"
  then obtain t where t: "db = Some t" using select_by_id_SomeD(1) by blast
  let ?task' = "task\<lparr>row_completed := bind_bool (\<not> py_bool (row_completed task))\<rparr>"
  let ?t' = "t\<lparr>rows := map (\<lambda>r. if row_id r = row_id task
      then r\<lparr>row_completed := bind_bool (\<not> py_bool (row_completed task))\<rparr> else r) (rows t)\<rparr>"
  note f = complete_task_found [OF s [unfolded t]]
  from select_by_id_SomeD(3) [OF s] have i: "sint (row_id task) = task_id" .
  show "\<exists>db1 new1 r. complete_task task_id db = (db1, Inr (Task new1, 200)) \<and>
         select_by_id task_id db1 = Inr (Some r) \<and> json_id new1 = task_id \<and>
         json_completed new1 = (row_completed r \<noteq> 0) \<and>
         (row_completed r \<noteq> 0) = (row_completed task = 0) \<and>
         (row_completed r = 0 \<or> row_completed r = 1)"
    by (intro exI [of _ "Some ?t'"] exI [of _ "task_dict ?task'"] exI [of _ ?task'])
      (simp add: f t i task_dict_def py_bool_def bind_bool_def)
qed

theorem completed_is_truthiness_witness:
  "get_tasks odd_db [odd_row] =
     Inr (Tasks [\<lparr>json_id = 3, json_description = [99], json_completed = True,
        json_created_at = 2\<rparr>], 200) \<and>
   list_all2 (\<lambda>r j. json_id j = sint (row_id r) \<and> json_completed j = (row_completed r \<noteq> 0))
     [odd_row] [\<lparr>json_id = 3, json_description = [99], json_completed = True,
        json_created_at = 2\<rparr>] \<and>
   add_task add_b 9 example_db =
     (Some \<lparr>schema = tasks_schema, rows = [example_row, second_row], seq = 2\<rparr>,
      Inr (Task \<lparr>json_id = 2, json_description = [98], json_completed = False,
        json_created_at = 9\<rparr>, 201)) \<and>
   (\<exists>db1 new1 r. add_task add_b 9 example_db = (db1, Inr (Task new1, 201)) \<and>
      select_by_id (json_id new1) db1 = Inr (Some r) \<and>
      json_completed new1 = (row_completed r \<noteq> 0) \<and> row_completed r = 0) \<and>
   select_by_id 3 odd_db = Inr (Some odd_row) \<and>
   complete_task 3 odd_db =
     (Some \<lparr>schema = tasks_schema, rows = [odd_row\<lparr>row_completed := 0\<rparr>], seq = 3\<rparr>,
      Inr (Task \<lparr>json_id = 3, json_description = [99], json_completed = False,
        json_created_at = 2\<rparr>, 200)) \<and>
   (\<exists>db1 new1 r. complete_task 3 odd_db = (db1, Inr (Task new1, 200)) \<and>
      select_by_id 3 db1 = Inr (Some r) \<and> json_id new1 = 3 \<and>
      json_completed new1 = (row_completed r \<noteq> 0) \<and>
      (row_completed r \<noteq> 0) = (row_completed odd_row = 0) \<and>
      (row_completed r = 0 \<or> row_completed r = 1))"
proof -
  have g: "get_tasks odd_db [odd_row] =
     Inr (Tasks [\<lparr>json_id = 3, json_description = [99], json_completed = True,
        json_created_at = 2\<rparr>], 200)"
    by (simp add: get_tasks_def odd_db_def odd_row_def task_dict_def py_bool_def)
  note c = completed_is_truthiness
  note 1 = c [where db = odd_db and fetched = "[odd_row]" and code = 200
      and ts = "[\<lparr>json_id = 3, json_description = [99], json_completed = True,
        json_created_at = 2\<rparr>]", THEN conjunct1, THEN mp, OF g, THEN conjunct1]
  have h: "add_b = PyDict [(py ''description'', PyStr [32, 98, 32])] \<and>
      map_of [(py ''description'', PyStr [32, 98, 32])] (py ''description'') =
        Some (PyStr [32, 98, 32]) \<and>
      (\<exists>c\<in>set [32, 98, 32]. \<not> py_isspace c) \<and> utf8_encodable (py_strip [32, 98, 32]) \<and>
      record_length (py_strip [32, 98, 32]) \<le> SQLITE_MAX_LENGTH \<and>
      example_db = Some \<lparr>schema = tasks_schema, rows = [example_row], seq = 1\<rparr> \<and>
      sint (seq \<lparr>schema = tasks_schema, rows = [example_row], seq = 1\<rparr>) < MAX_ROWID \<and>
      (\<forall>r\<in>set (rows \<lparr>schema = tasks_schema, rows = [example_row], seq = 1\<rparr>).
        sint (row_id r) < MAX_ROWID)"
    by (simp add: add_b_def example_db_def example_row_def py_isspace_def py_strip_example
        utf8_encodable_def record_length_example MAX_ROWID_def)
  note 2 = c [where data = add_b and now = 9 and db = example_db,
      THEN conjunct2, THEN conjunct2, THEN conjunct2, THEN conjunct1, THEN spec, THEN spec,
      THEN spec, THEN mp, OF h]
  note 3 = c [where db = odd_db and task_id = 3,
      THEN conjunct2, THEN conjunct2, THEN conjunct2, THEN conjunct2, THEN conjunct2,
      THEN spec, THEN mp, OF select_odd]
  from g 1 2 3 add_example select_odd complete_odd show ?thesis by (intro conjI)
qed

end
